theory Spec2Isabelle
  imports Main
begin

section \<open>Text helpers of the JavaScript runtime\<close>

text \<open>
  The log file is a sequence of bytes. The server turns every buffer it reads into a
  string with \<open>toString()\<close> and cuts it at the line feed. The model keeps the bytes as a
  \<open>string\<close> (a list of 8-bit characters) and takes \<open>toString\<close> as the identity, which is
  what it is on ASCII log text; byte offsets and string indices then coincide.
\<close>

abbreviation NL :: char where
  "NL \<equiv> CHR 0x0A"

text \<open>
  Bytes below 128 are the ones \<open>toString()\<close> hands on unchanged, wherever a buffer is
  cut. A byte from 128 on is part of a UTF-8 sequence, which \<open>toString()\<close> decodes, or
  replaces by U+FFFD when the buffer holds only a part of it. Statements about the
  payloads of arbitrary content are made for ASCII content.
\<close>

definition is_ascii :: "string \<Rightarrow> bool" where
  "is_ascii bytes = list_all (\<lambda>c. of_char c < (128::nat)) bytes"

text \<open>
  \<open>s.split('\n')\<close>: the pieces between line feeds. The array is never empty, so the
  second branch of the \<open>case\<close> below is never taken.
\<close>

fun split_nl :: "string \<Rightarrow> string list" where
  "split_nl [] = [Nil]"
| "split_nl (c # cs) =
     (if c = NL then [] # split_nl cs
      else (case split_nl cs of
              l # ls \<Rightarrow> (c # l) # ls
            | [] \<Rightarrow> [c # []]))"

text \<open>\<open>lines.join('\n')\<close>.\<close>

fun join_nl :: "string list \<Rightarrow> string" where
  "join_nl [] = []"
| "join_nl [l] = l"
| "join_nl (l # l' # ls) = l @ NL # join_nl (l' # ls)"

text \<open>
  \<open>xs.slice(-n)\<close>: the last \<open>n\<close> elements, all of them when there are fewer. For \<open>n = 0\<close>
  the argument is \<open>-0\<close>, which is the index \<open>0\<close>: the whole array is returned.
\<close>

definition slice_last :: "nat \<Rightarrow> 'a list \<Rightarrow> 'a list" where
  "slice_last n xs = (if n = 0 then xs else drop (length xs - n) xs)"

section \<open>The last-N-lines reader\<close>

datatype error = ENOENT

text \<open>\<open>Buffer.alloc(1024)\<close>: the length of the read buffer.\<close>

definition buffer_length :: nat where
  "buffer_length = 1024"

text \<open>
  The \<open>while\<close> loop of \<open>readLastLines\<close>. \<open>content\<close> is the file behind \<open>fd\<close>,
  \<open>position\<close> and \<open>lines\<close> are the loop's variables. \<open>fs.readSync\<close> followed by
  \<open>buffer.slice(0, readSize)\<close> yields the \<open>readSize\<close> bytes at \<open>position\<close>. The result
  \<open>None\<close> stands for a loop that never ends.
\<close>

partial_function (option) readLastLines_loop ::
  "nat \<Rightarrow> string \<Rightarrow> nat \<Rightarrow> nat \<Rightarrow> string list \<Rightarrow> string list option" where
  "readLastLines_loop bufLen content lineCount position lines =
     (if position > 0 \<and> length lines \<le> lineCount then
        readLastLines_loop bufLen content lineCount
          (position - min position bufLen)
          (split_nl (take (min position bufLen) (drop (position - min position bufLen) content))
             @ lines)
      else Some lines)"

declare readLastLines_loop.simps [code]

text \<open>
  \<open>readLastLines(filePath, lineCount)\<close> with a buffer of \<open>bufLen\<close> bytes. The file is
  \<open>None\<close> when it is missing or unreadable: \<open>fs.statSync\<close> throws then, which rejects
  the promise of the \<open>async\<close> function.
\<close>

definition readLastLines_buf ::
  "nat \<Rightarrow> string option \<Rightarrow> nat \<Rightarrow> (error + string list) option" where
  "readLastLines_buf bufLen file lineCount =
     (case file of
        None \<Rightarrow> Some (Inl ENOENT)
      | Some content \<Rightarrow>
          map_option (\<lambda>lines. Inr (slice_last lineCount (filter (\<lambda>line. line \<noteq> []) lines)))
            (readLastLines_loop bufLen content lineCount (length content) []))"

definition readLastLines :: "string option \<Rightarrow> nat \<Rightarrow> (error + string list) option" where
  "readLastLines = readLastLines_buf buffer_length"

text \<open>
  The reading of the specification: the non-empty lines of the whole file, the last
  \<open>n\<close> of them, oldest first.
\<close>

definition lastLines_spec :: "string \<Rightarrow> nat \<Rightarrow> string list" where
  "lastLines_spec content n =
     (let ls = filter (\<lambda>line. line \<noteq> []) (split_nl content)
      in drop (length ls - n) ls)"

text \<open>
  \<open>data.trim()\<close>: white space and line terminators are removed at both ends. Of the
  characters JavaScript strips, these are the ones a byte can hold: tab, line feed,
  vertical tab, form feed, carriage return and space.
\<close>

definition is_space :: "char \<Rightarrow> bool" where
  "is_space c = (c \<in> {CHR 0x09, CHR 0x0A, CHR 0x0B, CHR 0x0C, CHR 0x0D, CHR 0x20})"

definition trim :: "string \<Rightarrow> string" where
  "trim s = rev (dropWhile is_space (rev (dropWhile is_space s)))"

section \<open>Subscribers\<close>

text \<open>
  A WebSocket of \<open>wss.clients\<close>. \<open>inbox\<close> records every payload handed to the socket's
  \<open>send\<close>, oldest first: one entry is one message on the wire.
\<close>

datatype readyState = CONNECTING | OPEN | CLOSING | CLOSED

record client =
  ident :: nat
  readyState :: readyState
  inbox :: "string list"

definition send :: "string \<Rightarrow> client \<Rightarrow> client" where
  "send data c = c\<lparr>inbox := inbox c @ [data]\<rparr>"

text \<open>\<open>ws.send\<close> on the socket at position \<open>ws\<close> of \<open>wss.clients\<close>.\<close>

definition send_to :: "nat \<Rightarrow> string \<Rightarrow> client list \<Rightarrow> client list" where
  "send_to ws data cs = (if ws < length cs then cs[ws := send data (cs ! ws)] else cs)"

text \<open>
  The \<open>'data'\<close> callback of the read stream: \<open>newData = chunk.toString()\<close> is sent to
  every client of \<open>wss.clients\<close> (in insertion order) whose \<open>readyState\<close> is \<open>OPEN\<close>.
  The callback is the same in both versions of \<open>server.js\<close>.
\<close>

definition on_data :: "string \<Rightarrow> client list \<Rightarrow> client list" where
  "on_data chunk cs =
     map (\<lambda>client. if readyState client = OPEN then send chunk client else client) cs"

section \<open>The server: file, offset, registry and pending reads\<close>

text \<open>
  \<open>fs.createReadStream(LOG_FILE, {start, end})\<close> only creates the stream: the file is
  opened and read later, from the event loop. Node reads the bytes from \<open>start\<close> to
  \<open>end\<close>, both inclusive, as far as the file has them at that moment, and hands them
  to the \<open>'data'\<close> callback in chunks of at most \<open>highWaterMark\<close> bytes (64 KiB for
  file streams when the option is not given, as here).
\<close>

record read_stream =
  rs_start :: nat
  rs_end :: nat

definition highWaterMark :: nat where
  "highWaterMark = 65536"

fun chunked :: "nat \<Rightarrow> 'a list \<Rightarrow> 'a list list" where
  "chunked n [] = []"
| "chunked n (b # bs) =
     (if n = 0 then [] else take n (b # bs) # chunked n (drop n (b # bs)))"

definition stream_bytes :: "string \<Rightarrow> read_stream \<Rightarrow> string" where
  "stream_bytes content st = take (rs_end st + 1 - rs_start st) (drop (rs_start st) content)"

text \<open>
  \<open>log_file\<close> is the content of \<open>LOG_FILE\<close>, \<open>None\<close> while it is missing or unreadable;
  \<open>lastSize\<close> is the variable of that name; \<open>clients\<close> is \<open>wss.clients\<close>; \<open>streams\<close>
  holds the read streams created and not yet read, oldest first.
\<close>

record server =
  log_file :: "string option"
  lastSize :: nat
  clients :: "client list"
  streams :: "read_stream list"

text \<open>Start of the process: \<open>let lastSize = fs.statSync(LOG_FILE).size\<close>.\<close>

definition startup :: "string \<Rightarrow> client list \<Rightarrow> server" where
  "startup content cs = \<lparr>log_file = Some content, lastSize = length content, clients = cs, streams = []\<rparr>"

datatype eventType = Change | Rename

text \<open>
  The \<open>fs.watch\<close> callback of the version with \<open>readLastLines\<close>. \<open>fs.statSync\<close> throws
  when the file is gone; nothing catches it.
\<close>

definition watch_handler :: "eventType \<Rightarrow> server \<Rightarrow> error + server" where
  "watch_handler eventType s =
     (if eventType = Change then
        (case log_file s of
           None \<Rightarrow> Inl ENOENT
         | Some content \<Rightarrow>
             (let stats_size = length content in
              if stats_size > lastSize s then
                Inr (s\<lparr>streams := streams s @ [\<lparr>rs_start = lastSize s, rs_end = stats_size\<rparr>],
                       lastSize := stats_size\<rparr>)
              else Inr s))
      else Inr s)"

text \<open>
  The \<open>fs.watch\<close> callback of the version with \<open>fs.readFile\<close>, taken together with its
  \<open>fs.stat\<close> callback: \<open>if (err) return\<close>.
\<close>

definition watch_handler_stat :: "eventType \<Rightarrow> server \<Rightarrow> error + server" where
  "watch_handler_stat eventType s =
     (if eventType = Change then
        (case log_file s of
           None \<Rightarrow> Inr s
         | Some content \<Rightarrow>
             (let stats_size = length content in
              if stats_size > lastSize s then
                Inr (s\<lparr>streams := streams s @ [\<lparr>rs_start = lastSize s, rs_end = stats_size\<rparr>],
                       lastSize := stats_size\<rparr>)
              else Inr s))
      else Inr s)"

text \<open>
  The oldest pending stream is read: its bytes are taken from the file as it is now and
  every chunk goes through \<open>on_data\<close>. The chunk is passed on as it is, which is what
  \<open>chunk.toString()\<close> yields for a chunk of ASCII bytes (\<open>is_ascii\<close>); the general
  statements about delivered payloads below assume such content. A stream whose file
  is gone emits \<open>'error'\<close>, for which no listener is registered.
\<close>

definition stream_data :: "server \<Rightarrow> error + server" where
  "stream_data s =
     (case streams s of
        [] \<Rightarrow> Inr s
      | st # rest \<Rightarrow>
          (case log_file s of
             None \<Rightarrow> Inl ENOENT
           | Some content \<Rightarrow>
               Inr (s\<lparr>streams := rest,
                      clients := fold on_data (chunked highWaterMark (stream_bytes content st))
                                   (clients s)\<rparr>)))"

text \<open>
  What happens to a running server: another process appends to the file or truncates
  it to size 0, \<open>fs.watch\<close> calls back, a pending stream delivers its data. \<open>step\<close>
  takes the \<open>fs.watch\<close> callback of the version under study.
\<close>

datatype event = Append string | Truncate | Watch eventType | StreamData

fun step :: "(eventType \<Rightarrow> server \<Rightarrow> error + server) \<Rightarrow> event \<Rightarrow> server \<Rightarrow> error + server" where
  "step h (Append bytes) s = Inr (s\<lparr>log_file := map_option (\<lambda>content. content @ bytes) (log_file s)\<rparr>)"
| "step h Truncate s = Inr (s\<lparr>log_file := map_option (\<lambda>content. []) (log_file s)\<rparr>)"
| "step h (Watch eventType) s = h eventType s"
| "step h StreamData s = stream_data s"

fun run :: "(eventType \<Rightarrow> server \<Rightarrow> error + server) \<Rightarrow> event list \<Rightarrow> server \<Rightarrow> error + server" where
  "run h [] s = Inr s"
| "run h (e # es) s = (case step h e s of Inl err \<Rightarrow> Inl err | Inr s' \<Rightarrow> run h es s')"

section \<open>The connection handlers\<close>

text \<open>
  \<open>wss.on('connection', ws => ...)\<close> of the version with \<open>readLastLines\<close>: the last ten
  lines, joined, go to \<open>ws\<close>; a rejected promise sends the error text to \<open>ws\<close>.
\<close>

definition on_connection :: "nat \<Rightarrow> server \<Rightarrow> server option" where
  "on_connection ws s =
     (case readLastLines (log_file s) 10 of
        None \<Rightarrow> None
      | Some (Inr lines) \<Rightarrow> Some (s\<lparr>clients := send_to ws (join_nl lines) (clients s)\<rparr>)
      | Some (Inl err) \<Rightarrow>
          Some (s\<lparr>clients := send_to ws ''Error reading the log file.'' (clients s)\<rparr>))"

text \<open>The same handler of the version with \<open>fs.readFile\<close>, with the callback of the read.\<close>

definition on_connection_readFile :: "nat \<Rightarrow> server \<Rightarrow> server" where
  "on_connection_readFile ws s =
     (case log_file s of
        None \<Rightarrow> s\<lparr>clients := send_to ws ''Error reading log file.'' (clients s)\<rparr>
      | Some data \<Rightarrow>
          s\<lparr>clients := send_to ws (join_nl (slice_last 10 (split_nl (trim data)))) (clients s)\<rparr>)"

section \<open>Splitting at line feeds\<close>

lemma split_nl_nonempty: "split_nl s \<noteq> []"
  by (induction s) (auto split: list.splits)

lemma split_nl_no_NL: "NL \<notin> set a \<Longrightarrow> split_nl a = [a]"
  by (induction a) auto

lemma split_nl_append_NL: "NL \<notin> set a \<Longrightarrow> split_nl (a @ NL # b) = a # split_nl b"
  by (induction a) auto

section \<open>Termination of the backward read\<close>

lemma loop_returns:
  "0 < bufLen \<Longrightarrow> \<exists>r. readLastLines_loop bufLen content lineCount position lines = Some r"
proof (induction position arbitrary: lines rule: less_induct)
  case (less position)
  show ?case
  proof (cases "position > 0 \<and> length lines \<le> lineCount")
    case True
    then have "position - min position bufLen < position"
      using less.prems by auto
    from less.IH [OF this less.prems] show ?thesis
      using True by (subst readLastLines_loop.simps) simp
  next
    case False
    then show ?thesis
      by (subst readLastLines_loop.simps) auto
  qed
qed

text \<open>
  Claim C9. \<open>readLastLines\<close> terminates for every file and every requested line count:
  the loop returns from every position and every accumulated \<open>lines\<close>, the function
  returns a list of lines for every readable file, and an iteration that runs reads
  \<open>readSize = min(position, 1024) \<ge> 1\<close> bytes and leaves a strictly smaller position.
\<close>

theorem readLastLines_terminates:
  "(\<exists>r. readLastLines_loop buffer_length content lineCount position lines = Some r)
   \<and> (\<exists>ls. readLastLines (Some content) lineCount = Some (Inr ls))
   \<and> (0 < position \<longrightarrow>
        1 \<le> min position buffer_length \<and> position - min position buffer_length < position)"
proof -
  have pos: "0 < buffer_length"
    by (simp add: buffer_length_def)
  obtain r where r:
    "readLastLines_loop buffer_length content lineCount (length content) [] = Some r"
    using loop_returns [OF pos] by blast
  have "\<exists>ls. readLastLines (Some content) lineCount = Some (Inr ls)"
    by (simp add: readLastLines_def readLastLines_buf_def r)
  then show ?thesis
    using loop_returns [OF pos] pos by auto
qed

theorem readLastLines_terminates_witness:
  "(0::nat) < 3
   \<and> 1 \<le> min (3::nat) buffer_length \<and> 3 - min (3::nat) buffer_length < 3
   \<and> (\<exists>r. readLastLines_loop buffer_length ''a\<newline>b'' 10 3 [] = Some r)
   \<and> (\<exists>ls. readLastLines (Some ''a\<newline>b'') 10 = Some (Inr ls))"
  using readLastLines_terminates [of "''a\<newline>b''" 10 3 "[]"] by simp

section \<open>A line that crosses the buffer boundary\<close>

text \<open>
  Claim C1. The file below is 1026 bytes long and holds one line, \<open>ab\<close> followed by
  1023 times \<open>c\<close>, ended by a line feed. The first backward read takes the last 1024
  bytes, the second one the two bytes \<open>ab\<close>; the pieces are put side by side in
  \<open>lines\<close> and never joined. \<open>readLastLines\<close> returns two fragments where the file has
  one line.
\<close>

theorem readLastLines_breaks_line_at_buffer_boundary:
  "readLastLines (Some (''ab'' @ replicate 1023 (CHR ''c'') @ [NL])) 10
     = Some (Inr [''ab'', replicate 1023 (CHR ''c'')])
   \<and> lastLines_spec (''ab'' @ replicate 1023 (CHR ''c'') @ [NL]) 10
     = [''ab'' @ replicate 1023 (CHR ''c'')]"
proof -
  define r where "r = replicate 1023 (CHR ''c'')"
  define content where "content = ''ab'' @ r @ [NL]"
  have nl: "NL \<notin> set r" "NL \<notin> set (''ab'' @ r)"
    by (simp_all add: r_def)
  have ne: "r \<noteq> []"
    by (simp add: r_def)
  have len: "length content = 1026"
    by (simp add: content_def r_def)
  have c1: "take 1024 (drop 2 content) = r @ [NL]"
    by (simp add: content_def r_def)
  have c2: "take 2 content = ''ab''"
    by (simp add: content_def)
  have s1: "split_nl (r @ [NL]) = [r, []]"
    using split_nl_append_NL [OF nl(1), of "[]"] by simp
  have l1: "readLastLines_loop 1024 content 10 0 [''ab'', r, []] = Some [''ab'', r, []]"
    by (subst readLastLines_loop.simps) simp
  have l2: "readLastLines_loop 1024 content 10 2 [r, []] = Some [''ab'', r, []]"
    by (subst readLastLines_loop.simps) (simp add: l1 c2)
  have l3: "readLastLines_loop 1024 content 10 1026 [] = Some [''ab'', r, []]"
    by (subst readLastLines_loop.simps) (simp add: l2 s1 c1)
  have code: "readLastLines (Some content) 10 = Some (Inr [''ab'', r])"
    by (simp add: readLastLines_def readLastLines_buf_def buffer_length_def l3 len
        slice_last_def ne)
  have "split_nl content = [''ab'' @ r, []]"
    using split_nl_append_NL [OF nl(2), of "[]"] by (simp add: content_def)
  then have spec: "lastLines_spec content 10 = [''ab'' @ r]"
    by (simp add: lastLines_spec_def)
  from code spec show ?thesis
    by (simp add: content_def r_def)
qed

text \<open>
  A file that fits into the buffer is read in one piece, and then the result is the
  one the specification describes (for a positive line count).
\<close>

lemma readLastLines_one_chunk:
  assumes "length content \<le> buffer_length" "0 < n"
  shows "readLastLines (Some content) n = Some (Inr (lastLines_spec content n))"
proof (cases "content = []")
  case True
  have "readLastLines_loop buffer_length [] n 0 [] = Some []"
    by (subst readLastLines_loop.simps) simp
  then show ?thesis
    using True by (simp add: readLastLines_def readLastLines_buf_def lastLines_spec_def slice_last_def)
next
  case False
  let ?ls = "split_nl content"
  have last_round: "readLastLines_loop buffer_length content n 0 ?ls = Some ?ls"
    by (subst readLastLines_loop.simps) simp
  have whole: "min (length content) buffer_length = length content"
    using assms(1) by simp
  have "readLastLines_loop buffer_length content n (length content) [] = Some ?ls"
    by (subst readLastLines_loop.simps) (simp add: last_round whole False)
  then show ?thesis
    using assms(2)
    by (simp add: readLastLines_def readLastLines_buf_def lastLines_spec_def slice_last_def
        Let_def)
qed

section \<open>Stream chunks and the broadcast\<close>

lemma concat_chunked: "0 < n \<Longrightarrow> concat (chunked n bytes) = bytes"
  by (induction n bytes rule: chunked.induct) simp_all

lemma chunked_single: "bytes \<noteq> [] \<Longrightarrow> length bytes \<le> n \<Longrightarrow> chunked n bytes = [bytes]"
  by (cases bytes) auto

lemma chunked_unfold:
  "bytes \<noteq> [] \<Longrightarrow> 0 < n \<Longrightarrow> chunked n bytes = take n bytes # chunked n (drop n bytes)"
  by (cases bytes) auto

lemma chunked_length_le: "chunk \<in> set (chunked n bytes) \<Longrightarrow> length chunk \<le> n"
  by (induction n bytes rule: chunked.induct) (auto split: if_splits)

lemma fold_on_data:
  "fold on_data chunks cs =
     map (\<lambda>client. if readyState client = OPEN then client\<lparr>inbox := inbox client @ chunks\<rparr>
                    else client) cs"
proof (induction chunks arbitrary: cs)
  case Nil
  show ?case by (simp add: map_idI)
next
  case (Cons chunk chunks)
  show ?case
    by (simp add: Cons.IH) (simp add: on_data_def send_def)
qed

lemma send_to_props:
  "length (send_to ws data cs) = length cs"
  "ws < length cs \<Longrightarrow> send_to ws data cs ! ws = (cs ! ws)\<lparr>inbox := inbox (cs ! ws) @ [data]\<rparr>"
  "j \<noteq> ws \<Longrightarrow> send_to ws data cs ! j = cs ! j"
  by (simp_all add: send_to_def send_def)

lemma step_clients:
  assumes "h \<in> {watch_handler, watch_handler_stat}" "step h e s = Inr s'"
    and "i < length (clients s)" "readyState (clients s ! i) \<noteq> OPEN"
  shows "length (clients s') = length (clients s) \<and> clients s' ! i = clients s ! i"
proof (cases e)
  case (Watch eventType)
  then show ?thesis
    using assms(1,2)
    by (auto simp add: watch_handler_def watch_handler_stat_def Let_def
        split: if_splits option.splits)
next
  case StreamData
  then show ?thesis
    using assms(2-4)
    by (auto simp add: stream_data_def fold_on_data split: list.splits option.splits)
qed (use assms(2) in auto)

text \<open>
  Claim C10. In a growth broadcast \<open>send\<close> is called only on clients whose
  \<open>readyState\<close> is \<open>OPEN\<close>: a client in any other state comes out of the \<open>'data'\<close>
  callback as it went in, and over any run of the server (appends, truncations, watch
  callbacks, stream reads, with either version of the watch callback) such a client is
  never sent anything and stays where it is in the registry.
\<close>

theorem growth_is_sent_to_open_clients_only:
  assumes "h \<in> {watch_handler, watch_handler_stat}" "run h evs s = Inr s'"
    and "i < length (clients s)" "readyState (clients s ! i) \<noteq> OPEN"
  shows "on_data chunk (clients s) ! i = clients s ! i
    \<and> length (clients s') = length (clients s) \<and> clients s' ! i = clients s ! i"
proof -
  have "length (clients s') = length (clients s) \<and> clients s' ! i = clients s ! i"
    using assms(2-4)
  proof (induction evs arbitrary: s)
    case Nil
    then show ?case by simp
  next
    case (Cons e evs)
    then obtain s1 where s1: "step h e s = Inr s1" "run h evs s1 = Inr s'"
      by (auto split: sum.splits)
    from step_clients [OF assms(1) s1(1) Cons.prems(2,3)]
    have a: "length (clients s1) = length (clients s)" "clients s1 ! i = clients s ! i"
      by simp_all
    from Cons.IH [OF s1(2)] a Cons.prems(2,3) show ?case
      by simp
  qed
  then show ?thesis
    using assms(3,4) by (simp add: on_data_def)
qed

theorem growth_is_sent_to_open_clients_only_witness:
  "watch_handler \<in> {watch_handler, watch_handler_stat}
   \<and> run watch_handler [Append ''a\<newline>'', Watch Change, StreamData]
        (startup [] [\<lparr>ident = 1, readyState = OPEN, inbox = []\<rparr>,
                     \<lparr>ident = 2, readyState = CLOSED, inbox = []\<rparr>])
      = Inr \<lparr>log_file = Some ''a\<newline>'', lastSize = 2,
             clients = [\<lparr>ident = 1, readyState = OPEN, inbox = [''a\<newline>'']\<rparr>,
                        \<lparr>ident = 2, readyState = CLOSED, inbox = []\<rparr>],
             streams = []\<rparr>
   \<and> (1::nat) < length [\<lparr>ident = 1, readyState = OPEN, inbox = []\<rparr>,
                         \<lparr>ident = 2, readyState = CLOSED, inbox = ([]::string list)\<rparr>]
   \<and> readyState \<lparr>ident = 2, readyState = CLOSED, inbox = []\<rparr> \<noteq> OPEN
   \<and> on_data ''a\<newline>'' [\<lparr>ident = 1, readyState = OPEN, inbox = []\<rparr>,
                        \<lparr>ident = 2, readyState = CLOSED, inbox = []\<rparr>] ! 1
      = \<lparr>ident = 2, readyState = CLOSED, inbox = []\<rparr>"
  using growth_is_sent_to_open_clients_only
    [of watch_handler "[Append ''a\<newline>'', Watch Change, StreamData]"
        "startup [] [\<lparr>ident = 1, readyState = OPEN, inbox = []\<rparr>,
                     \<lparr>ident = 2, readyState = CLOSED, inbox = []\<rparr>]"
        "\<lparr>log_file = Some ''a\<newline>'', lastSize = 2,
             clients = [\<lparr>ident = 1, readyState = OPEN, inbox = [''a\<newline>'']\<rparr>,
                        \<lparr>ident = 2, readyState = CLOSED, inbox = []\<rparr>],
             streams = []\<rparr>" 1 "''a\<newline>''"]
  by (simp add: startup_def watch_handler_def stream_data_def stream_bytes_def
      highWaterMark_def on_data_def send_def)

text \<open>
  Claim C6, as the code has it. A subscriber to which nothing can be delivered is one
  whose \<open>readyState\<close> is not \<open>OPEN\<close>. The broadcast skips it and goes on: with
  subscribers \<open>A\<close>, \<open>B\<close>, \<open>C\<close> of which \<open>B\<close> is not open, \<open>A\<close> and \<open>C\<close> are sent the
  chunk. The broadcast never takes a subscriber out of the registry: the same
  clients, in the same states, are in it afterwards, \<open>B\<close> among them.
\<close>

theorem broadcast_skips_and_keeps_closed_client:
  "map ident (on_data chunk cs) = map ident cs
   \<and> map readyState (on_data chunk cs) = map readyState cs
   \<and> map inbox (on_data chunk cs)
       = map (\<lambda>client. if readyState client = OPEN then inbox client @ [chunk]
                       else inbox client) cs
   \<and> (readyState A = OPEN \<and> readyState B \<noteq> OPEN \<and> readyState C = OPEN \<longrightarrow>
        on_data chunk [A, B, C] = [send chunk A, B, send chunk C])"
  by (simp add: on_data_def send_def)

theorem broadcast_skips_and_keeps_closed_client_witness:
  "readyState \<lparr>ident = 1, readyState = OPEN, inbox = []\<rparr> = OPEN
   \<and> readyState \<lparr>ident = 2, readyState = CLOSING, inbox = []\<rparr> \<noteq> OPEN
   \<and> readyState \<lparr>ident = 3, readyState = OPEN, inbox = [''old'']\<rparr> = OPEN
   \<and> on_data ''x\<newline>'' [\<lparr>ident = 1, readyState = OPEN, inbox = []\<rparr>,
                        \<lparr>ident = 2, readyState = CLOSING, inbox = []\<rparr>,
                        \<lparr>ident = 3, readyState = OPEN, inbox = [''old'']\<rparr>]
      = [\<lparr>ident = 1, readyState = OPEN, inbox = [''x\<newline>'']\<rparr>,
         \<lparr>ident = 2, readyState = CLOSING, inbox = []\<rparr>,
         \<lparr>ident = 3, readyState = OPEN, inbox = [''old'', ''x\<newline>'']\<rparr>]"
  using broadcast_skips_and_keeps_closed_client
    [of "''x\<newline>''" "[]"
        "\<lparr>ident = 1, readyState = OPEN, inbox = []\<rparr>"
        "\<lparr>ident = 2, readyState = CLOSING, inbox = []\<rparr>"
        "\<lparr>ident = 3, readyState = OPEN, inbox = [''old'']\<rparr>"]
  by (simp add: send_def)

text \<open>
  Against claim C6 as stated: \<open>B\<close> (client 2, closing) is still in the registry after
  the growth broadcast, which did reach \<open>A\<close> and \<open>C\<close>.
\<close>

theorem broadcast_leaves_closed_client_in_registry:
  "run watch_handler [Append ''x\<newline>'', Watch Change, StreamData]
     (startup [] [\<lparr>ident = 1, readyState = OPEN, inbox = []\<rparr>,
                  \<lparr>ident = 2, readyState = CLOSING, inbox = []\<rparr>,
                  \<lparr>ident = 3, readyState = OPEN, inbox = []\<rparr>])
   = Inr \<lparr>log_file = Some ''x\<newline>'', lastSize = 2,
          clients = [\<lparr>ident = 1, readyState = OPEN, inbox = [''x\<newline>'']\<rparr>,
                     \<lparr>ident = 2, readyState = CLOSING, inbox = []\<rparr>,
                     \<lparr>ident = 3, readyState = OPEN, inbox = [''x\<newline>'']\<rparr>],
          streams = []\<rparr>"
  by (simp add: startup_def watch_handler_def stream_data_def stream_bytes_def
      highWaterMark_def on_data_def send_def)

section \<open>The stored offset\<close>

text \<open>
  Claim C5, as the code has it. \<open>lastSize\<close> is set to the new size by the watch
  callback itself (either version), in the same run that sees the growth and creates
  the read stream for the delta. At that point the stream is only pending: nothing of
  the delta has been read or sent, the clients are untouched. And it is set only then:
  a run of the callback that returns either leaves the whole state as it was, or it was
  called for a \<open>change\<close> with the stat'ed size strictly above \<open>lastSize\<close> and has done
  exactly that update.
\<close>

theorem lastSize_is_set_when_the_stream_is_created:
  assumes "h \<in> {watch_handler, watch_handler_stat}"
  shows "(log_file s = Some content \<and> lastSize s < length content \<longrightarrow>
            h Change s =
              Inr (s\<lparr>streams := streams s @ [\<lparr>rs_start = lastSize s, rs_end = length content\<rparr>],
                     lastSize := length content\<rparr>)
            \<and> clients (s\<lparr>streams := streams s @ [\<lparr>rs_start = lastSize s, rs_end = length content\<rparr>],
                         lastSize := length content\<rparr>) = clients s)
    \<and> (h eventType s = Inr s' \<longrightarrow>
          s' = s
          \<or> (eventType = Change
              \<and> (\<exists>stats. log_file s = Some stats \<and> lastSize s < length stats
                    \<and> s' = s\<lparr>streams := streams s @ [\<lparr>rs_start = lastSize s, rs_end = length stats\<rparr>],
                              lastSize := length stats\<rparr>)))"
  using assms
  by (auto simp add: watch_handler_def watch_handler_stat_def Let_def
      split: if_splits option.splits)

theorem lastSize_is_set_when_the_stream_is_created_witness:
  "watch_handler \<in> {watch_handler, watch_handler_stat}
   \<and> log_file \<lparr>log_file = Some ''old\<newline>new\<newline>'', lastSize = 4,
             clients = [\<lparr>ident = 1, readyState = OPEN, inbox = []\<rparr>], streams = []\<rparr>
     = Some ''old\<newline>new\<newline>''
   \<and> (4::nat) < length ''old\<newline>new\<newline>''
   \<and> watch_handler Change
        \<lparr>log_file = Some ''old\<newline>new\<newline>'', lastSize = 4,
           clients = [\<lparr>ident = 1, readyState = OPEN, inbox = []\<rparr>], streams = []\<rparr>
      = Inr \<lparr>log_file = Some ''old\<newline>new\<newline>'', lastSize = 8,
             clients = [\<lparr>ident = 1, readyState = OPEN, inbox = []\<rparr>],
             streams = [\<lparr>rs_start = 4, rs_end = 8\<rparr>]\<rparr>
   \<and> watch_handler Change
        \<lparr>log_file = Some ''y\<newline>'', lastSize = 7,
           clients = [\<lparr>ident = 1, readyState = OPEN, inbox = []\<rparr>], streams = []\<rparr>
      = Inr \<lparr>log_file = Some ''y\<newline>'', lastSize = 7,
           clients = [\<lparr>ident = 1, readyState = OPEN, inbox = []\<rparr>], streams = []\<rparr>"
  using lastSize_is_set_when_the_stream_is_created
    [of watch_handler
        "\<lparr>log_file = Some ''old\<newline>new\<newline>'', lastSize = 4,
           clients = [\<lparr>ident = 1, readyState = OPEN, inbox = []\<rparr>], streams = []\<rparr>"
        "''old\<newline>new\<newline>''" Change
        "\<lparr>log_file = Some ''old\<newline>new\<newline>'', lastSize = 8,
             clients = [\<lparr>ident = 1, readyState = OPEN, inbox = []\<rparr>],
             streams = [\<lparr>rs_start = 4, rs_end = 8\<rparr>]\<rparr>"]
  by (simp add: watch_handler_def)

text \<open>
  Against claim C5 as stated: after the append and the watch callback \<open>lastSize\<close> is
  already 2, while the read of the two bytes is still pending and the subscriber has
  received nothing.
\<close>

theorem lastSize_advances_before_the_delta_is_read:
  "run watch_handler [Append ''a\<newline>'', Watch Change]
     (startup [] [\<lparr>ident = 1, readyState = OPEN, inbox = []\<rparr>])
   = Inr \<lparr>log_file = Some ''a\<newline>'', lastSize = 2,
          clients = [\<lparr>ident = 1, readyState = OPEN, inbox = []\<rparr>],
          streams = [\<lparr>rs_start = 0, rs_end = 2\<rparr>]\<rparr>"
  by (simp add: startup_def watch_handler_def)

lemma handler_lastSize:
  assumes "h \<in> {watch_handler, watch_handler_stat}" "h eventType s = Inr s'"
  shows "lastSize s' = lastSize s
         \<or> (lastSize s < lastSize s' \<and> map_option length (log_file s) = Some (lastSize s'))"
  using assms
  by (auto simp add: watch_handler_def watch_handler_stat_def Let_def
      split: if_splits option.splits)

lemma stream_data_lastSize: "stream_data s = Inr s' \<Longrightarrow> lastSize s' = lastSize s"
  by (auto simp add: stream_data_def split: list.splits option.splits)

lemma step_lastSize:
  assumes "h \<in> {watch_handler, watch_handler_stat}" "step h e s = Inr s'"
  shows "lastSize s \<le> lastSize s'"
proof (cases e)
  case (Watch eventType)
  then show ?thesis
    using handler_lastSize [OF assms(1), of eventType s s'] assms(2) by auto
next
  case StreamData
  then show ?thesis
    using stream_data_lastSize [of s s'] assms(2) by simp
qed (use assms(2) in auto)

text \<open>
  Claim C8. \<open>lastSize\<close> never decreases. A run of the watch callback (either version)
  leaves it unchanged or assigns it a strictly larger value, which is then the size of
  the file just stat'ed; and over any run of the server, truncations of the file
  included, the final \<open>lastSize\<close> is at least the initial one.
\<close>

theorem lastSize_never_decreases:
  assumes "h \<in> {watch_handler, watch_handler_stat}"
    and "h eventType s = Inr s'" "run h evs s = Inr s''"
  shows "(lastSize s' = lastSize s
          \<or> (lastSize s < lastSize s' \<and> map_option length (log_file s) = Some (lastSize s')))
    \<and> lastSize s \<le> lastSize s''"
proof -
  have "lastSize s \<le> lastSize s''"
    using assms(3)
  proof (induction evs arbitrary: s)
    case Nil
    then show ?case by simp
  next
    case (Cons e evs)
    then obtain s1 where s1: "step h e s = Inr s1" "run h evs s1 = Inr s''"
      by (auto split: sum.splits)
    from step_lastSize [OF assms(1) s1(1)] Cons.IH [OF s1(2)] show ?case
      by simp
  qed
  with handler_lastSize [OF assms(1,2)] show ?thesis
    by simp
qed

theorem lastSize_never_decreases_witness:
  "watch_handler \<in> {watch_handler, watch_handler_stat}
   \<and> watch_handler Change
        \<lparr>log_file = Some ''ab'', lastSize = 1, clients = [], streams = []\<rparr>
      = Inr \<lparr>log_file = Some ''ab'', lastSize = 2, clients = [],
             streams = [\<lparr>rs_start = 1, rs_end = 2\<rparr>]\<rparr>
   \<and> run watch_handler [Truncate, Watch Change, Append ''xyz'', Watch Change]
        \<lparr>log_file = Some ''ab'', lastSize = 1, clients = [], streams = []\<rparr>
      = Inr \<lparr>log_file = Some ''xyz'', lastSize = 3, clients = [],
             streams = [\<lparr>rs_start = 1, rs_end = 3\<rparr>]\<rparr>
   \<and> (1::nat) < 2 \<and> map_option length (Some ''ab'') = Some (2::nat) \<and> (1::nat) \<le> 3"
  using lastSize_never_decreases
    [of watch_handler Change
        "\<lparr>log_file = Some ''ab'', lastSize = 1, clients = [], streams = []\<rparr>"
        "\<lparr>log_file = Some ''ab'', lastSize = 2, clients = [],
             streams = [\<lparr>rs_start = 1, rs_end = 2\<rparr>]\<rparr>"
        "[Truncate, Watch Change, Append ''xyz'', Watch Change]"
        "\<lparr>log_file = Some ''xyz'', lastSize = 3, clients = [],
             streams = [\<lparr>rs_start = 1, rs_end = 3\<rparr>]\<rparr>"]
  by (simp add: watch_handler_def)

section \<open>Growth events and their messages\<close>

text \<open>
  Claim C4, as the code has it. The file holds \<open>old\<close> and \<open>lastSize\<close> is its size (as
  at the start of the process and after every growth delivered so far); ASCII bytes
  \<open>new\<close> are appended, the watch callback (either version) detects the growth and
  its stream is read before the file changes again. Every \<open>OPEN\<close> client is sent
  exactly the appended bytes, in file order, as one message per chunk of the stream:
  the chunks concatenate to \<open>new\<close>, none is longer than \<open>highWaterMark\<close>, and a growth
  of at most \<open>highWaterMark\<close> bytes is exactly one message. A second growth event adds
  messages of its own after those of the first: no message holds bytes of two growth
  events.
\<close>

theorem growth_event_is_sent_chunk_by_chunk:
  assumes "log_file s = Some old" "lastSize s = length old" "streams s = []"
    and "h \<in> {watch_handler, watch_handler_stat}"
    and "is_ascii new" "is_ascii bytes"
  shows "run h [Append new, Watch Change, StreamData] s =
     Inr (s\<lparr>log_file := Some (old @ new), lastSize := length old + length new,
            clients := map (\<lambda>client. if readyState client = OPEN
                          then client\<lparr>inbox := inbox client @ chunked highWaterMark new\<rparr>
                          else client) (clients s)\<rparr>)
   \<and> concat (chunked highWaterMark new) = new
   \<and> (\<forall>chunk \<in> set (chunked highWaterMark new). length chunk \<le> highWaterMark)
   \<and> (new \<noteq> [] \<and> length new \<le> highWaterMark \<longrightarrow> chunked highWaterMark new = [new])
   \<and> run h [Append new, Watch Change, StreamData, Append bytes, Watch Change, StreamData] s =
     Inr (s\<lparr>log_file := Some (old @ new @ bytes),
            lastSize := length old + length new + length bytes,
            clients := map (\<lambda>client. if readyState client = OPEN
                          then client\<lparr>inbox := inbox client @ chunked highWaterMark new
                                  @ chunked highWaterMark bytes\<rparr>
                          else client) (clients s)\<rparr>)"
proof -
  have hwm: "0 < highWaterMark"
    by (simp add: highWaterMark_def)
  have one: "run h [Append new, Watch Change, StreamData] s =
     Inr (s\<lparr>log_file := Some (old @ new), lastSize := length old + length new,
            clients := fold on_data (chunked highWaterMark new) (clients s)\<rparr>)"
    using assms(1-4)
    by (cases "new = []")
      (auto simp add: watch_handler_def watch_handler_stat_def stream_data_def
        stream_bytes_def Let_def)
  have two: "run h [Append new, Watch Change, StreamData, Append bytes, Watch Change, StreamData] s =
     Inr (s\<lparr>log_file := Some (old @ new @ bytes),
            lastSize := length old + length new + length bytes,
            clients := fold on_data (chunked highWaterMark bytes)
               (fold on_data (chunked highWaterMark new) (clients s))\<rparr>)"
    using assms(1-4)
    by (cases "new = []"; cases "bytes = []")
      (auto simp add: watch_handler_def watch_handler_stat_def stream_data_def
        stream_bytes_def Let_def)
  show ?thesis
    using one two
    by (simp add: fold_on_data concat_chunked [OF hwm] chunked_length_le chunked_single o_def
        cong: if_cong)
qed

theorem growth_event_is_sent_chunk_by_chunk_witness:
  "log_file \<lparr>log_file = Some ''a\<newline>'', lastSize = 2,
             clients = [\<lparr>ident = 1, readyState = OPEN, inbox = []\<rparr>,
                        \<lparr>ident = 2, readyState = CLOSED, inbox = []\<rparr>],
             streams = []\<rparr> = Some ''a\<newline>''
   \<and> (2::nat) = length ''a\<newline>''
   \<and> watch_handler \<in> {watch_handler, watch_handler_stat}
   \<and> is_ascii ''b\<newline>'' \<and> is_ascii ''c\<newline>''
   \<and> run watch_handler [Append ''b\<newline>'', Watch Change, StreamData]
        \<lparr>log_file = Some ''a\<newline>'', lastSize = 2,
           clients = [\<lparr>ident = 1, readyState = OPEN, inbox = []\<rparr>,
                      \<lparr>ident = 2, readyState = CLOSED, inbox = []\<rparr>],
           streams = []\<rparr>
      = Inr \<lparr>log_file = Some ''a\<newline>b\<newline>'', lastSize = 4,
             clients = [\<lparr>ident = 1, readyState = OPEN, inbox = [''b\<newline>'']\<rparr>,
                        \<lparr>ident = 2, readyState = CLOSED, inbox = []\<rparr>],
             streams = []\<rparr>
   \<and> run watch_handler
        [Append ''b\<newline>'', Watch Change, StreamData, Append ''c\<newline>'', Watch Change, StreamData]
        \<lparr>log_file = Some ''a\<newline>'', lastSize = 2,
           clients = [\<lparr>ident = 1, readyState = OPEN, inbox = []\<rparr>,
                      \<lparr>ident = 2, readyState = CLOSED, inbox = []\<rparr>],
           streams = []\<rparr>
      = Inr \<lparr>log_file = Some ''a\<newline>b\<newline>c\<newline>'', lastSize = 6,
             clients = [\<lparr>ident = 1, readyState = OPEN, inbox = [''b\<newline>'', ''c\<newline>'']\<rparr>,
                        \<lparr>ident = 2, readyState = CLOSED, inbox = []\<rparr>],
             streams = []\<rparr>"
  using growth_event_is_sent_chunk_by_chunk
    [of "\<lparr>log_file = Some ''a\<newline>'', lastSize = 2,
           clients = [\<lparr>ident = 1, readyState = OPEN, inbox = []\<rparr>,
                      \<lparr>ident = 2, readyState = CLOSED, inbox = []\<rparr>],
           streams = []\<rparr>"
        "''a\<newline>''" watch_handler "''b\<newline>''" "''c\<newline>''"]
  by (simp add: highWaterMark_def is_ascii_def)

text \<open>
  Against claim C4 as stated: a single growth of 65537 bytes reaches the subscriber as
  two messages, one of 65536 bytes and one of one byte.
\<close>

theorem large_growth_is_split_into_two_messages:
  "run watch_handler [Append (replicate 65537 (CHR ''x'')), Watch Change, StreamData]
     (startup [] [\<lparr>ident = 1, readyState = OPEN, inbox = []\<rparr>])
   = Inr \<lparr>log_file = Some (replicate 65537 (CHR ''x'')), lastSize = 65537,
          clients = [\<lparr>ident = 1, readyState = OPEN,
                      inbox = [replicate 65536 (CHR ''x''), ''x'']\<rparr>],
          streams = []\<rparr>"
proof -
  have "chunked 65536 (replicate 65537 (CHR ''x'')) = [replicate 65536 (CHR ''x''), ''x'']"
    by (simp add: chunked_unfold)
  then show ?thesis
    by (simp add: startup_def watch_handler_def stream_data_def stream_bytes_def
        highWaterMark_def on_data_def send_def)
qed

section \<open>Appends that arrive while a read is pending\<close>

text \<open>
  Claim C2. A subscriber is connected and open all along. \<open>a\<close> and a line feed are
  appended and the watch callback runs: the size is 2, a stream from 0 to 2 is created,
  \<open>lastSize\<close> becomes 2. Before the stream is read, \<open>b\<close> and a line feed are appended.
  The stream reads up to offset 2 inclusive, so its message holds \<open>b\<close> already. The next
  watch callback creates a stream from 2 to 4, whose message starts with \<open>b\<close> again.
  The growth messages concatenate to five bytes where four were appended: the byte at
  offset 2 is delivered twice. Both versions of the watch callback behave so.
\<close>

theorem byte_at_stream_end_is_delivered_twice:
  "run watch_handler
     [Append ''a\<newline>'', Watch Change, Append ''b\<newline>'', StreamData, Watch Change, StreamData]
     (startup [] [\<lparr>ident = 1, readyState = OPEN, inbox = []\<rparr>])
   = Inr \<lparr>log_file = Some ''a\<newline>b\<newline>'', lastSize = 4,
          clients = [\<lparr>ident = 1, readyState = OPEN, inbox = [''a\<newline>b'', ''b\<newline>'']\<rparr>],
          streams = []\<rparr>
   \<and> run watch_handler_stat
     [Append ''a\<newline>'', Watch Change, Append ''b\<newline>'', StreamData, Watch Change, StreamData]
     (startup [] [\<lparr>ident = 1, readyState = OPEN, inbox = []\<rparr>])
   = Inr \<lparr>log_file = Some ''a\<newline>b\<newline>'', lastSize = 4,
          clients = [\<lparr>ident = 1, readyState = OPEN, inbox = [''a\<newline>b'', ''b\<newline>'']\<rparr>],
          streams = []\<rparr>
   \<and> concat [''a\<newline>b'', ''b\<newline>''] = ''a\<newline>bb\<newline>''
   \<and> concat [''a\<newline>b'', ''b\<newline>''] \<noteq> ''a\<newline>'' @ ''b\<newline>''"
  by (simp add: startup_def watch_handler_def watch_handler_stat_def stream_data_def
      stream_bytes_def highWaterMark_def on_data_def send_def)

section \<open>Truncation\<close>

text \<open>
  Claim C3, as the code has it. Neither watch callback looks for a size below
  \<open>lastSize\<close>: a truncation is not detected and \<open>lastSize\<close> is never reset. A file of
  size \<open>S\<close> has \<open>X\<close> appended, which is delivered; it is truncated to size 0 and has
  \<open>Y\<close> appended (\<open>X\<close> and \<open>Y\<close> ASCII). If \<open>Y\<close> is not longer than \<open>S + len(X)\<close>, the
  next watch callback broadcasts nothing and \<open>lastSize\<close> stays \<open>S + len(X)\<close>. If \<open>Y\<close>
  is longer, what is broadcast is \<open>Y\<close> without its first \<open>S + len(X)\<close> bytes, and
  \<open>lastSize\<close> becomes \<open>len(Y)\<close>.
\<close>

theorem truncation_is_not_detected:
  assumes "h \<in> {watch_handler, watch_handler_stat}"
    and "is_ascii X" "is_ascii Y"
  shows "run h [Append X, Watch Change, StreamData, Truncate, Append Y, Watch Change, StreamData]
       (startup content cs)
     = Inr \<lparr>log_file = Some Y,
            lastSize = (if length Y \<le> length content + length X
                        then length content + length X else length Y),
            clients = map (\<lambda>client. if readyState client = OPEN
                then client\<lparr>inbox := inbox client @ chunked highWaterMark X
                   @ (if length Y \<le> length content + length X then []
                      else chunked highWaterMark (drop (length content + length X) Y))\<rparr>
                else client) cs,
            streams = []\<rparr>"
proof -
  have "run h [Append X, Watch Change, StreamData, Truncate, Append Y, Watch Change, StreamData]
       (startup content cs)
     = Inr \<lparr>log_file = Some Y, lastSize = max (length content + length X) (length Y),
          clients = fold on_data (chunked highWaterMark (drop (length content + length X) Y))
                      (fold on_data (chunked highWaterMark X) cs),
          streams = []\<rparr>"
    using assms(1)
    by (auto simp add: startup_def watch_handler_def watch_handler_stat_def stream_data_def
        stream_bytes_def Let_def max_def)
  then show ?thesis
    by (simp add: fold_on_data o_def max_def cong: if_cong)
qed

theorem truncation_is_not_detected_witness:
  "watch_handler \<in> {watch_handler, watch_handler_stat}
   \<and> is_ascii ''xx\<newline>'' \<and> is_ascii ''0123456789''
   \<and> run watch_handler
       [Append ''xx\<newline>'', Watch Change, StreamData, Truncate, Append ''0123456789'',
        Watch Change, StreamData]
       (startup ''old\<newline>'' [\<lparr>ident = 1, readyState = OPEN, inbox = []\<rparr>])
     = Inr \<lparr>log_file = Some ''0123456789'', lastSize = 10,
            clients = [\<lparr>ident = 1, readyState = OPEN, inbox = [''xx\<newline>'', ''789'']\<rparr>],
            streams = []\<rparr>"
  using truncation_is_not_detected
    [of watch_handler "''xx\<newline>''" "''0123456789''" "''old\<newline>''"
        "[\<lparr>ident = 1, readyState = OPEN, inbox = []\<rparr>]"]
  by (simp add: highWaterMark_def is_ascii_def)

text \<open>
  Against claim C3 as stated: the file holds \<open>old\<close> and a line feed (\<open>S = 4\<close>), \<open>X\<close> is
  three bytes, \<open>Y\<close> is two bytes. After the truncation and the append of \<open>Y\<close> the
  subscriber has received \<open>X\<close> only, and \<open>lastSize\<close> is 7, not 2.
\<close>

theorem truncation_loses_the_new_content:
  "run watch_handler
     [Append ''xx\<newline>'', Watch Change, StreamData, Truncate, Append ''y\<newline>'',
      Watch Change, StreamData]
     (startup ''old\<newline>'' [\<lparr>ident = 1, readyState = OPEN, inbox = []\<rparr>])
   = Inr \<lparr>log_file = Some ''y\<newline>'', lastSize = 7,
          clients = [\<lparr>ident = 1, readyState = OPEN, inbox = [''xx\<newline>'']\<rparr>],
          streams = []\<rparr>"
  by (simp add: startup_def watch_handler_def stream_data_def stream_bytes_def
      highWaterMark_def on_data_def send_def)

section \<open>A read error on connect\<close>

text \<open>
  Claim C7. When the log file is missing or unreadable at the time a subscriber
  connects, the connection handler (either version) sends the error text to the
  connecting socket and does nothing else: it returns normally, \<open>lastSize\<close>, the
  pending streams and the file are as before, the registry has the same length, the
  connecting socket has the error text as its newest message, and every other socket is
  exactly as it was.
\<close>

theorem read_error_on_connect_reaches_the_connecting_client_only:
  assumes "log_file s = None"
  shows "on_connection ws s
           = Some (s\<lparr>clients := send_to ws ''Error reading the log file.'' (clients s)\<rparr>)
    \<and> on_connection_readFile ws s
           = s\<lparr>clients := send_to ws ''Error reading log file.'' (clients s)\<rparr>
    \<and> length (send_to ws data (clients s)) = length (clients s)
    \<and> (ws < length (clients s) \<longrightarrow>
          send_to ws data (clients s) ! ws
            = (clients s ! ws)\<lparr>inbox := inbox (clients s ! ws) @ [data]\<rparr>)
    \<and> (j \<noteq> ws \<longrightarrow> send_to ws data (clients s) ! j = clients s ! j)"
  using assms
  by (simp add: on_connection_def on_connection_readFile_def readLastLines_def
      readLastLines_buf_def send_to_props)

theorem read_error_on_connect_reaches_the_connecting_client_only_witness:
  "log_file \<lparr>log_file = None, lastSize = 5,
             clients = [\<lparr>ident = 1, readyState = OPEN, inbox = [''old'']\<rparr>,
                        \<lparr>ident = 2, readyState = OPEN, inbox = []\<rparr>],
             streams = []\<rparr> = None
   \<and> on_connection 1
        \<lparr>log_file = None, lastSize = 5,
           clients = [\<lparr>ident = 1, readyState = OPEN, inbox = [''old'']\<rparr>,
                      \<lparr>ident = 2, readyState = OPEN, inbox = []\<rparr>],
           streams = []\<rparr>
      = Some \<lparr>log_file = None, lastSize = 5,
           clients = [\<lparr>ident = 1, readyState = OPEN, inbox = [''old'']\<rparr>,
                      \<lparr>ident = 2, readyState = OPEN, inbox = [''Error reading the log file.'']\<rparr>],
           streams = []\<rparr>
   \<and> on_connection_readFile 1
        \<lparr>log_file = None, lastSize = 5,
           clients = [\<lparr>ident = 1, readyState = OPEN, inbox = [''old'']\<rparr>,
                      \<lparr>ident = 2, readyState = OPEN, inbox = []\<rparr>],
           streams = []\<rparr>
      = \<lparr>log_file = None, lastSize = 5,
           clients = [\<lparr>ident = 1, readyState = OPEN, inbox = [''old'']\<rparr>,
                      \<lparr>ident = 2, readyState = OPEN, inbox = [''Error reading log file.'']\<rparr>],
           streams = []\<rparr>"
  using read_error_on_connect_reaches_the_connecting_client_only
    [of "\<lparr>log_file = None, lastSize = 5,
           clients = [\<lparr>ident = 1, readyState = OPEN, inbox = [''old'']\<rparr>,
                      \<lparr>ident = 2, readyState = OPEN, inbox = []\<rparr>],
           streams = []\<rparr>" 1 "[]" 0]
  by (simp add: send_to_def send_def)

end
